theory Spec2Isabelle
  imports Complex_Main
begin

section \<open>JavaScript values\<close>

text \<open>
  A JavaScript string is the list of its UTF-16 code units. \<open>str\<close> turns an ASCII
  literal of the source into that list.
\<close>

type_synonym jsstring = "nat list"

definition str :: "string \<Rightarrow> jsstring" where
  "str s = map of_char s"

text \<open>
  The values a handler can be given: what JSON carries, and \<open>undefined\<close> (an event
  emitted with no argument, a property that is not there). A number is the value of the
  parsed double; zero is the only falsy one (JSON carries no NaN). An object is the list
  of its properties, one entry for each key. A binary attachment reads like an object
  with none of the properties the server looks at.
\<close>

datatype jsval =
    JUndefined
  | JNull
  | JBool bool
  | JNum rat
  | JStr jsstring
  | JArr "jsval list"
  | JObj "(jsstring \<times> jsval) list"

datatype error =
    TypeError
  | WriteError jsstring

text \<open>The truthiness that \<open>!v\<close>, \<open>v || d\<close> and \<open>if (v)\<close> test.\<close>

fun truthy :: "jsval \<Rightarrow> bool" where
  "truthy JUndefined = False"
| "truthy JNull = False"
| "truthy (JBool b) = b"
| "truthy (JNum x) = (x \<noteq> 0)"
| "truthy (JStr s) = (s \<noteq> [])"
| "truthy (JArr xs) = True"
| "truthy (JObj ps) = True"

text \<open>\<open>a || b\<close>\<close>

definition js_or :: "jsval \<Rightarrow> jsval \<Rightarrow> jsval" where
  "js_or a b = (if truthy a then a else b)"

text \<open>
  Reading \<open>v.k\<close> (and destructuring \<open>const { k } = v\<close>) for a property name \<open>k\<close>
  that no built-in prototype defines, which holds for every name the server reads
  (sender, text, fileUrl, timestamp, email, password): on \<open>undefined\<close> and \<open>null\<close>
  the access throws a TypeError, on an object it gives the property or \<open>undefined\<close>,
  on any other value it gives \<open>undefined\<close>.
\<close>

fun get_field :: "jsval \<Rightarrow> jsstring \<Rightarrow> error + jsval" where
  "get_field JUndefined k = Inl TypeError"
| "get_field JNull k = Inl TypeError"
| "get_field (JObj ps) k = Inr (case map_of ps k of Some v \<Rightarrow> v | None \<Rightarrow> JUndefined)"
| "get_field v k = Inr JUndefined"

text \<open>Sequencing: a statement that throws ends the handler with its error.\<close>

definition thenE :: "error + 'a \<Rightarrow> ('a \<Rightarrow> error + 'b) \<Rightarrow> error + 'b" where
  "thenE r f = (case r of Inl e \<Rightarrow> Inl e | Inr v \<Rightarrow> f v)"

section \<open>Server state\<close>

text \<open>
  \<open>safeMsg\<close>, the record the chatMessage handler builds, stores and broadcasts. A field
  holds whatever truthy value the client sent, so the fields are JavaScript values.
\<close>

record chat_message =
  sender :: jsval
  msg_text :: jsval
  fileUrl :: jsval
  timestamp :: jsval
  sentiment :: int

text \<open>The two events the server sends to a socket.\<close>

datatype out_event =
    ChatHistoryEv "chat_message list"
  | ChatMessageEv chat_message

text \<open>
  \<open>chatHistory\<close> is the array of the source, \<open>uploads\<close> the files of UPLOADS_DIR by name,
  \<open>sockets\<close> the ids of the sockets socket.io holds open (\<open>io.sockets\<close>), and
  \<open>inbox c\<close> what has been sent to socket \<open>c\<close>, oldest first.
\<close>

record server =
  chatHistory :: "chat_message list"
  uploads :: "jsstring \<rightharpoonup> nat list"
  sockets :: "nat set"
  inbox :: "nat \<Rightarrow> out_event list"

definition init :: "(jsstring \<rightharpoonup> nat list) \<Rightarrow> server" where
  "init files = \<lparr>chatHistory = [], uploads = files, sockets = {}, inbox = (\<lambda>c. [])\<rparr>"

section \<open>Socket.io chat\<close>

text \<open>\<open>socket.emit(ev)\<close>: to one socket.\<close>

definition socket_emit :: "nat \<Rightarrow> out_event \<Rightarrow> server \<Rightarrow> server" where
  "socket_emit c ev st = st\<lparr>inbox := (inbox st)(c := inbox st c @ [ev])\<rparr>"

text \<open>\<open>io.emit(ev)\<close>: to every connected socket.\<close>

definition io_emit :: "out_event \<Rightarrow> server \<Rightarrow> server" where
  "io_emit ev st =
     st\<lparr>inbox := (\<lambda>c. if c \<in> sockets st then inbox st c @ [ev] else inbox st c)\<rparr>"

text \<open>
  The connection handler: socket.io has added the new socket, which has been sent
  nothing yet, to the connected ones; the handler sends it the chat history.
\<close>

definition on_connection :: "nat \<Rightarrow> server \<Rightarrow> server" where
  "on_connection c st =
     socket_emit c (ChatHistoryEv (chatHistory st))
       (st\<lparr>sockets := insert c (sockets st), inbox := (inbox st)(c := [])\<rparr>)"

text \<open>The disconnect handler only logs; socket.io drops the socket.\<close>

definition on_disconnect :: "nat \<Rightarrow> server \<Rightarrow> server" where
  "on_disconnect c st = st\<lparr>sockets := sockets st - {c}\<rparr>"

text \<open>
  Lines 111 to 124 of the chatMessage handler: the record \<open>safeMsg\<close> with its
  defaults, then its sentiment. \<open>analyze\<close> is the external analyzer: \<open>analyze t\<close> is
  the score of \<open>sentiment.analyze(t)\<close>, or \<open>None\<close> when the call throws. \<open>nowIso\<close>
  is what \<open>new Date().toISOString()\<close> gives when the event is handled.
\<close>

definition safeMsg ::
  "(jsval \<Rightarrow> int option) \<Rightarrow> jsstring \<Rightarrow> jsval \<Rightarrow> error + chat_message" where
  "safeMsg analyze nowIso msg =
     thenE (get_field msg (str ''sender'')) (\<lambda>s.
     thenE (get_field msg (str ''text'')) (\<lambda>t.
     thenE (get_field msg (str ''fileUrl'')) (\<lambda>f.
     thenE (get_field msg (str ''timestamp'')) (\<lambda>ts.
       let safeText = js_or t (JStr (str ''''))
       in Inr \<lparr>sender = js_or s (JStr (str ''Anonymous'')),
                msg_text = safeText,
                fileUrl = js_or f JNull,
                timestamp = js_or ts (JStr nowIso),
                sentiment = (case analyze safeText of Some score \<Rightarrow> score | None \<Rightarrow> 0)\<rparr>))))"

text \<open>The handler: build \<open>safeMsg\<close>, push it on \<open>chatHistory\<close>, emit it to all.\<close>

definition on_chatMessage ::
  "(jsval \<Rightarrow> int option) \<Rightarrow> jsstring \<Rightarrow> jsval \<Rightarrow> server \<Rightarrow> error + server" where
  "on_chatMessage analyze nowIso msg st =
     thenE (safeMsg analyze nowIso msg) (\<lambda>m.
       Inr (io_emit (ChatMessageEv m) (st\<lparr>chatHistory := chatHistory st @ [m]\<rparr>)))"

section \<open>HTTP responses\<close>

text \<open>
  A response body is the JSON value given to \<open>res.json\<close>, or the page of Express's
  built-in error handler, which answers when an error reaches \<open>next(err)\<close> or escapes
  a route handler: server.js installs no error middleware of its own.
\<close>

datatype res_body =
    Json jsval
  | DefaultErrorPage error

record response =
  status :: nat
  body :: res_body

text \<open>\<open>res.status(n).json(v)\<close>; \<open>res.json(v)\<close> is \<open>res_json 200 v\<close>.\<close>

definition res_json :: "nat \<Rightarrow> jsval \<Rightarrow> response" where
  "res_json n v = \<lparr>status = n, body = Json v\<rparr>"

definition express_error :: "error \<Rightarrow> response" where
  "express_error err = \<lparr>status = 500, body = DefaultErrorPage err\<rparr>"

section \<open>Login\<close>

record user =
  email :: jsstring
  password :: jsstring

definition users :: "user list" where
  "users = [\<lparr>email = str ''user@example.com'', password = str ''mypassword''\<rparr>,
            \<lparr>email = str ''24qm5a6701@gmail.com'', password = str ''Prashanth@123''\<rparr>]"

text \<open>\<open>s === v\<close> for a string \<open>s\<close>.\<close>

definition strict_eq :: "jsstring \<Rightarrow> jsval \<Rightarrow> bool" where
  "strict_eq s v = (v = JStr s)"

text \<open>The handler of POST /api/login, on \<open>req.body\<close>; the table is a parameter.\<close>

definition login_handler :: "user list \<Rightarrow> jsval \<Rightarrow> error + response" where
  "login_handler table req_body =
     thenE (get_field req_body (str ''email'')) (\<lambda>em.
     thenE (get_field req_body (str ''password'')) (\<lambda>pw.
       if \<not> truthy em \<or> \<not> truthy pw
       then Inr (res_json 200 (JObj [(str ''success'', JBool False),
                                     (str ''message'', JStr (str ''Email and password required''))]))
       else (case find (\<lambda>u. strict_eq (email u) em \<and> strict_eq (password u) pw) table of
               Some u \<Rightarrow> Inr (res_json 200 (JObj [(str ''success'', JBool True)]))
             | None \<Rightarrow> Inr (res_json 200 (JObj [(str ''success'', JBool False),
                                     (str ''message'', JStr (str ''Invalid email or password''))])))))"

definition post_login :: "user list \<Rightarrow> jsval \<Rightarrow> response" where
  "post_login table req_body =
     (case login_handler table req_body of Inl err \<Rightarrow> express_error err | Inr res \<Rightarrow> res)"

section \<open>File upload\<close>

text \<open>
  The class \<open>\s\<close> of a regular expression without the unicode flag: tab, line feed,
  vertical tab, form feed, carriage return, space, U+00A0, U+1680, U+2000 to U+200A,
  U+2028, U+2029, U+202F, U+205F, U+3000 and U+FEFF.
\<close>

definition is_space :: "nat \<Rightarrow> bool" where
  "is_space c =
     (c \<in> {9, 10, 11, 12, 13, 32, 160, 5760, 8232, 8233, 8239, 8287, 12288, 65279}
      \<or> (8192 \<le> c \<and> c \<le> 8202))"

text \<open>\<open>s.replace(/\s+/g, "_")\<close>: each maximal run of \<open>\s\<close> becomes one underscore.\<close>

function replace_ws :: "jsstring \<Rightarrow> jsstring" where
  "replace_ws [] = []"
| "replace_ws (c # cs) =
     (if is_space c then 95 # replace_ws (dropWhile is_space cs) else c # replace_ws cs)"
  by pat_completeness auto
termination
  by (relation "measure length") (auto simp: le_imp_less_Suc length_dropWhile_le)

text \<open>
  The string of a natural number, as \<open>Date.now() + "-"\<close> converts it: below
  \<open>10^21\<close>, where every time value lies, the decimal digits. \<open>Date.now()\<close> counts
  the milliseconds since the epoch.
\<close>

fun num_to_str :: "nat \<Rightarrow> jsstring" where
  "num_to_str n = (if n < 10 then [48 + n] else num_to_str (n div 10) @ [48 + n mod 10])"

declare num_to_str.simps [simp del]

text \<open>
  The file part of the multipart field "file", if the request has one, and \<open>req.file\<close>
  as multer sets it, of which the handler reads the \<open>filename\<close>. A request with a file
  part in another field is not modelled.
\<close>

record upload_part =
  originalname :: jsstring
  content :: "nat list"

record multer_file =
  filename :: jsstring

text \<open>The \<open>filename\<close> callback of the disk storage.\<close>

definition safeName :: "nat \<Rightarrow> upload_part \<Rightarrow> jsstring" where
  "safeName now file = num_to_str now @ str ''-'' @ replace_ws (originalname file)"

text \<open>
  The middleware \<open>upload.single("file")\<close> over that storage. With no file part it goes
  on with \<open>req.file\<close> undefined. With one it names the file by the callback and writes
  it under UPLOADS_DIR; \<open>write_error\<close> is the error of that write when it fails, and
  then the middleware passes the error to \<open>next\<close>. What a failed write leaves on disk
  is outside the model.
\<close>

definition upload_single ::
  "nat \<Rightarrow> jsstring option \<Rightarrow> upload_part option \<Rightarrow> server
     \<Rightarrow> error + (multer_file option \<times> server)" where
  "upload_single now write_error part st =
     (case part of
        None \<Rightarrow> Inr (None, st)
      | Some file \<Rightarrow>
          (case write_error of
             Some err \<Rightarrow> Inl (WriteError err)
           | None \<Rightarrow> Inr (Some \<lparr>filename = safeName now file\<rparr>,
                          st\<lparr>uploads := (uploads st)(safeName now file \<mapsto> content file)\<rparr>)))"

text \<open>The body of the \<open>try\<close> block of the handler; nothing in it throws.\<close>

definition upload_try :: "multer_file option \<Rightarrow> error + response" where
  "upload_try req_file =
     (case req_file of
        None \<Rightarrow> Inr (res_json 400 (JObj [(str ''error'', JStr (str ''No file uploaded''))]))
      | Some file \<Rightarrow>
          Inr (res_json 200 (JObj [(str ''fileUrl'', JStr (str ''/uploads/'' @ filename file))])))"

text \<open>The handler: the \<open>try\<close> block and its \<open>catch\<close>.\<close>

definition upload_handler :: "multer_file option \<Rightarrow> response" where
  "upload_handler req_file =
     (case upload_try req_file of
        Inl err \<Rightarrow> res_json 500 (JObj [(str ''error'', JStr (str ''Upload failed''))])
      | Inr res \<Rightarrow> res)"

text \<open>
  The route POST /api/upload: the middleware, then the handler; an error passed to
  \<open>next\<close> skips the handler and is answered by Express.
\<close>

definition post_upload ::
  "nat \<Rightarrow> jsstring option \<Rightarrow> upload_part option \<Rightarrow> server \<Rightarrow> response \<times> server" where
  "post_upload now write_error part st =
     (case upload_single now write_error part st of
        Inl err \<Rightarrow> (express_error err, st)
      | Inr (req_file, st') \<Rightarrow> (upload_handler req_file, st'))"

section \<open>Runs of the server\<close>

text \<open>
  What the single-threaded dispatcher handles, one at a time: a socket connecting or
  disconnecting, a chatMessage event of a socket with its payload, an upload and a
  login request.
\<close>

datatype event =
    Connect nat
  | Disconnect nat
  | ChatMessage nat jsstring jsval
  | Upload nat "jsstring option" "upload_part option"
  | Login jsval

fun step :: "(jsval \<Rightarrow> int option) \<Rightarrow> event \<Rightarrow> server \<Rightarrow> error + server" where
  "step analyze (Connect c) st = Inr (on_connection c st)"
| "step analyze (Disconnect c) st = Inr (on_disconnect c st)"
| "step analyze (ChatMessage c nowIso msg) st = on_chatMessage analyze nowIso msg st"
| "step analyze (Upload now write_error part) st = Inr (snd (post_upload now write_error part st))"
| "step analyze (Login req_body) st = Inr st"

text \<open>
  Nothing catches an error thrown by the chatMessage handler: the run ends with it.
\<close>

fun run :: "(jsval \<Rightarrow> int option) \<Rightarrow> event list \<Rightarrow> server \<Rightarrow> error + server" where
  "run analyze [] st = Inr st"
| "run analyze (ev # evs) st = thenE (step analyze ev st) (run analyze evs)"

section \<open>Notions used in the statements\<close>

text \<open>The value a read of \<open>v.k\<close> gives when it does not throw.\<close>

definition field_of :: "jsval \<Rightarrow> jsstring \<Rightarrow> jsval" where
  "field_of v k = (case get_field v k of Inr x \<Rightarrow> x | Inl e \<Rightarrow> JUndefined)"

text \<open>
  The chat log a client holds: the history it was sent when it connected, followed by
  the messages of the chatMessage events it was sent since, in the order of arrival.
  It is \<open>None\<close> when the inbox is not one chatHistory event followed by chatMessage
  events only.
\<close>

fun live_msgs :: "out_event list \<Rightarrow> chat_message list option" where
  "live_msgs [] = Some []"
| "live_msgs (ChatMessageEv m # evs) = map_option ((#) m) (live_msgs evs)"
| "live_msgs (ChatHistoryEv h # evs) = None"

fun client_log :: "out_event list \<Rightarrow> chat_message list option" where
  "client_log (ChatHistoryEv h # evs) = map_option ((@) h) (live_msgs evs)"
| "client_log evs = None"

definition in_sync :: "server \<Rightarrow> bool" where
  "in_sync st = (\<forall>c\<in>sockets st. client_log (inbox st c) = Some (chatHistory st))"

text \<open>
  The records of the chatMessage events of a run, in the order of the events; an
  event whose payload makes \<open>safeMsg\<close> throw has none.
\<close>

fun records :: "(jsval \<Rightarrow> int option) \<Rightarrow> event list \<Rightarrow> chat_message list" where
  "records analyze [] = []"
| "records analyze (ChatMessage c nowIso msg # evs) =
     (case safeMsg analyze nowIso msg of
        Inr m \<Rightarrow> m # records analyze evs
      | Inl e \<Rightarrow> records analyze evs)"
| "records analyze (ev # evs) = records analyze evs"

fun is_chatMessage :: "event \<Rightarrow> bool" where
  "is_chatMessage (ChatMessage c nowIso msg) = True"
| "is_chatMessage ev = False"

fun payload_defined :: "event \<Rightarrow> bool" where
  "payload_defined (ChatMessage c nowIso msg) = (msg \<noteq> JUndefined \<and> msg \<noteq> JNull)"
| "payload_defined ev = True"

text \<open>
  The login of section 4.1 of the specification read word for word, where a field is
  absent when the body does not have it: absence gives the required-fields answer,
  anything else is looked up in the table.
\<close>

definition login_as_claimed :: "user list \<Rightarrow> jsval \<Rightarrow> response" where
  "login_as_claimed table req_body =
     (if field_of req_body (str ''email'') = JUndefined
         \<or> field_of req_body (str ''password'') = JUndefined
      then res_json 200 (JObj [(str ''success'', JBool False),
                               (str ''message'', JStr (str ''Email and password required''))])
      else if \<exists>u\<in>set table. field_of req_body (str ''email'') = JStr (email u)
                \<and> field_of req_body (str ''password'') = JStr (password u)
      then res_json 200 (JObj [(str ''success'', JBool True)])
      else res_json 200 (JObj [(str ''success'', JBool False),
                               (str ''message'', JStr (str ''Invalid email or password''))]))"

text \<open>The number a string of decimal digits denotes.\<close>

definition str_to_num :: "jsstring \<Rightarrow> nat" where
  "str_to_num ds = foldl (\<lambda>a d. 10 * a + (d - 48)) 0 ds"

text \<open>
  An analyzer to run the handlers on concrete inputs: it scores a string by its length
  and throws on any other value. The theorems hold for every analyzer.
\<close>

definition demo_analyze :: "jsval \<Rightarrow> int option" where
  "demo_analyze t = (case t of JStr s \<Rightarrow> Some (int (length s)) | _ \<Rightarrow> None)"

section \<open>Basic facts\<close>

lemma str_eq_iff [simp]: "str a = str b \<longleftrightarrow> a = b"
  by (simp add: str_def inj_of_char)

lemma str_Nil [simp]: "str [] = []"
  by (simp add: str_def)

lemma str_eq_Nil [simp]: "str a = [] \<longleftrightarrow> a = []"
  by (simp add: str_def)

lemma thenE_simps [simp]: "thenE (Inr v) f = f v" "thenE (Inl e) f = Inl e"
  by (simp_all add: thenE_def)

lemma get_field_defined:
  "msg \<noteq> JUndefined \<Longrightarrow> msg \<noteq> JNull \<Longrightarrow> get_field msg k = Inr (field_of msg k)"
  by (cases msg) (simp_all add: field_of_def)

lemma io_emit_simps [simp]:
  "chatHistory (io_emit ev st) = chatHistory st"
  "sockets (io_emit ev st) = sockets st"
  "uploads (io_emit ev st) = uploads st"
  "inbox (io_emit ev st) c = (if c \<in> sockets st then inbox st c @ [ev] else inbox st c)"
  by (simp_all add: io_emit_def)

subsection \<open>The chatMessage handler on a payload that is neither null nor undefined\<close>

lemma safeMsg_defined:
  assumes "msg \<noteq> JUndefined" "msg \<noteq> JNull"
  shows "safeMsg analyze nowIso msg =
     Inr \<lparr>sender = js_or (field_of msg (str ''sender'')) (JStr (str ''Anonymous'')),
          msg_text = js_or (field_of msg (str ''text'')) (JStr (str '''')),
          fileUrl = js_or (field_of msg (str ''fileUrl'')) JNull,
          timestamp = js_or (field_of msg (str ''timestamp'')) (JStr nowIso),
          sentiment = (case analyze (js_or (field_of msg (str ''text'')) (JStr (str '''')))
                       of Some score \<Rightarrow> score | None \<Rightarrow> 0)\<rparr>"
  by (simp add: safeMsg_def get_field_defined [OF assms] Let_def)

lemma safeMsg_throws_iff:
  "safeMsg analyze nowIso msg = Inl e \<longleftrightarrow> e = TypeError \<and> (msg = JUndefined \<or> msg = JNull)"
proof (cases "msg = JUndefined \<or> msg = JNull")
  case True
  then show ?thesis by (auto simp: safeMsg_def)
next
  case False
  then show ?thesis by (simp add: safeMsg_defined)
qed

lemma on_chatMessage_defined:
  assumes "msg \<noteq> JUndefined" "msg \<noteq> JNull"
  shows "\<exists>m. safeMsg analyze nowIso msg = Inr m
    \<and> on_chatMessage analyze nowIso msg st =
        Inr (io_emit (ChatMessageEv m) (st\<lparr>chatHistory := chatHistory st @ [m]\<rparr>))
    \<and> sender m = js_or (field_of msg (str ''sender'')) (JStr (str ''Anonymous''))
    \<and> msg_text m = js_or (field_of msg (str ''text'')) (JStr (str ''''))
    \<and> fileUrl m = js_or (field_of msg (str ''fileUrl'')) JNull
    \<and> timestamp m = js_or (field_of msg (str ''timestamp'')) (JStr nowIso)
    \<and> sentiment m = (case analyze (msg_text m) of Some score \<Rightarrow> score | None \<Rightarrow> 0)"
  by (simp add: safeMsg_defined [OF assms] on_chatMessage_def)

subsection \<open>Every client holds the server's chat log\<close>

lemma live_msgs_snoc:
  "live_msgs (evs @ [ChatMessageEv m]) = map_option (\<lambda>ms. ms @ [m]) (live_msgs evs)"
  by (induction evs rule: live_msgs.induct) (simp_all add: option.map_comp comp_def)

lemma client_log_snoc:
  "client_log evs = Some h \<Longrightarrow> client_log (evs @ [ChatMessageEv m]) = Some (h @ [m])"
  by (cases evs rule: client_log.cases) (auto simp: live_msgs_snoc)

lemma in_sync_init: "in_sync (init files)"
  by (simp add: in_sync_def init_def)

lemma in_sync_step:
  assumes "in_sync st" "step analyze ev st = Inr st'"
  shows "in_sync st'"
proof (cases ev)
  case (Connect c)
  with assms show ?thesis
    by (auto simp: in_sync_def on_connection_def socket_emit_def)
next
  case (Disconnect c)
  with assms show ?thesis
    by (auto simp: in_sync_def on_disconnect_def)
next
  case (ChatMessage c nowIso msg)
  with assms obtain m where
    "st' = io_emit (ChatMessageEv m) (st\<lparr>chatHistory := chatHistory st @ [m]\<rparr>)"
    by (auto simp: on_chatMessage_def thenE_def split: sum.splits)
  with assms(1) show ?thesis
    by (auto simp: in_sync_def client_log_snoc)
next
  case (Upload now write_error part)
  with assms show ?thesis
    by (auto simp: in_sync_def post_upload_def upload_single_def split: option.splits)
next
  case (Login req_body)
  with assms show ?thesis by simp
qed

lemma in_sync_run:
  "in_sync st \<Longrightarrow> run analyze evs st = Inr st' \<Longrightarrow> in_sync st'"
proof (induction evs arbitrary: st)
  case Nil
  then show ?case by simp
next
  case (Cons ev evs)
  then obtain st1 where s: "step analyze ev st = Inr st1" and r: "run analyze evs st1 = Inr st'"
    by (auto simp: thenE_def split: sum.splits)
  from Cons.prems(1) s have "in_sync st1" by (rule in_sync_step)
  then show ?case using r by (rule Cons.IH)
qed

subsection \<open>The chat log of a run\<close>

lemma step_chatHistory:
  "step analyze ev st = Inr st' \<Longrightarrow> chatHistory st' = chatHistory st @ records analyze [ev]"
  by (cases ev)
    (auto simp: on_connection_def socket_emit_def on_disconnect_def on_chatMessage_def
      post_upload_def upload_single_def thenE_def split: sum.splits option.splits)

lemma records_Cons: "records analyze (ev # evs) = records analyze [ev] @ records analyze evs"
  by (cases ev) (simp_all split: sum.splits)

lemma run_chatHistory:
  "run analyze evs st = Inr st' \<Longrightarrow> chatHistory st' = chatHistory st @ records analyze evs"
proof (induction evs arbitrary: st)
  case Nil
  then show ?case by simp
next
  case (Cons ev evs)
  then obtain st1 where s: "step analyze ev st = Inr st1" and r: "run analyze evs st1 = Inr st'"
    by (auto simp: thenE_def split: sum.splits)
  have "chatHistory st' = chatHistory st1 @ records analyze evs"
    using r by (rule Cons.IH)
  also have "chatHistory st1 = chatHistory st @ records analyze [ev]"
    using s by (rule step_chatHistory)
  finally show ?case
    by (simp add: records_Cons [of analyze ev evs])
qed

lemma step_defined:
  "payload_defined ev \<Longrightarrow> \<exists>st'. step analyze ev st = Inr st'"
  using on_chatMessage_defined [of _ analyze _ st] by (cases ev) auto

lemma run_defined:
  "list_all payload_defined evs \<Longrightarrow> \<exists>st'. run analyze evs st = Inr st'"
proof (induction evs arbitrary: st)
  case Nil
  then show ?case by simp
next
  case (Cons ev evs)
  then obtain st1 where "step analyze ev st = Inr st1"
    using step_defined [of ev analyze st] by auto
  with Cons show ?case by simp
qed

lemma length_records:
  "list_all payload_defined evs \<Longrightarrow>
     length (records analyze evs) = length (filter is_chatMessage evs)"
proof (induction evs)
  case Nil
  then show ?case by simp
next
  case (Cons ev evs)
  then show ?case
    by (cases ev) (auto simp: safeMsg_defined)
qed

text \<open>
  A run none of whose chatMessage payloads is null or undefined is handled to its
  end, and the chat log after it holds the record of each chatMessage event, one for
  each, in the order of the events.
\<close>

lemma chat_log_of_handled_run:
  assumes "list_all payload_defined evs"
  shows "\<exists>st'. run analyze evs (init files) = Inr st'
    \<and> chatHistory st' = records analyze evs
    \<and> length (chatHistory st') = length (filter is_chatMessage evs)"
proof -
  from run_defined [OF assms] obtain st' where r: "run analyze evs (init files) = Inr st'"
    by blast
  then have "chatHistory st' = chatHistory (init files) @ records analyze evs"
    by (rule run_chatHistory)
  then have "chatHistory st' = records analyze evs"
    by (simp add: init_def)
  with r length_records [OF assms, of analyze] show ?thesis
    by simp
qed

text \<open>The only error that ends a run is the TypeError of a read on the payload.\<close>

lemma step_Inl: "step analyze ev st = Inl e \<Longrightarrow> e = TypeError"
  by (cases ev) (auto simp: on_chatMessage_def thenE_def safeMsg_throws_iff split: sum.splits)

lemma run_Inl: "run analyze evs st = Inl e \<Longrightarrow> e = TypeError"
proof (induction evs arbitrary: st)
  case Nil
  then show ?case by simp
next
  case (Cons ev evs)
  show ?case
  proof (cases "step analyze ev st")
    case (Inl e')
    with Cons.prems show ?thesis
      by (simp add: step_Inl)
  next
    case (Inr st1)
    with Cons.prems have "run analyze evs st1 = Inl e"
      by simp
    then show ?thesis by (rule Cons.IH)
  qed
qed

lemma run_append:
  "run analyze (evs1 @ evs2) st = thenE (run analyze evs1 st) (run analyze evs2)"
  by (induction evs1 arbitrary: st) (simp_all add: thenE_def split: sum.splits)

text \<open>What a connecting client is sent is the chat log of that moment.\<close>

lemma replay_is_chatHistory:
  "inbox (on_connection c st) c = [ChatHistoryEv (chatHistory st)]"
  by (simp add: on_connection_def socket_emit_def)

section \<open>The claims on the chat\<close>

text \<open>
  Claim C1: after N chatMessage events handled one after the other the chat log has
  length N and holds their records in the order of submission, and a connecting client
  is replayed the log of that moment. The code does this for every payload that is
  neither null nor undefined (\<open>chat_log_of_handled_run\<close>, \<open>replay_is_chatHistory\<close>). On a
  null payload the read of \<open>msg.sender\<close> throws before anything is pushed: a run
  with such an event anywhere in it ends with the TypeError, and no record of the
  event exists.
\<close>

theorem null_payload_ends_run:
  "run analyze (evs1 @ ChatMessage c nowIso JNull # evs2) st = Inl TypeError"
proof (cases "run analyze evs1 st")
  case (Inl e)
  then have "e = TypeError"
    by (rule run_Inl)
  with Inl show ?thesis
    by (simp add: run_append)
next
  case (Inr st1)
  then show ?thesis
    by (simp add: run_append on_chatMessage_def safeMsg_def)
qed

text \<open>
  Claim C2: the record the handler pushes on the chat log is the one it emits, to
  every connected socket, the sender's among them, and to no other; and in every state
  the server reaches, each connected client holds the server's chat log: the history
  it was sent on connecting followed by the messages pushed since, each once and in
  the order they were pushed.
\<close>

theorem broadcast_in_append_order:
  assumes "run analyze evs (init files) = Inr st"
  shows "(\<forall>c\<in>sockets st. client_log (inbox st c) = Some (chatHistory st))
     \<and> (\<forall>nowIso msg. msg \<noteq> JUndefined \<longrightarrow> msg \<noteq> JNull \<longrightarrow>
          (\<exists>m st'. on_chatMessage analyze nowIso msg st = Inr st'
             \<and> safeMsg analyze nowIso msg = Inr m
             \<and> chatHistory st' = chatHistory st @ [m]
             \<and> sockets st' = sockets st
             \<and> (\<forall>c. inbox st' c =
                   (if c \<in> sockets st then inbox st c @ [ChatMessageEv m] else inbox st c))))"
proof (intro conjI allI impI)
  have "in_sync st"
    using in_sync_init assms by (rule in_sync_run)
  then show "\<forall>c\<in>sockets st. client_log (inbox st c) = Some (chatHistory st)"
    by (simp add: in_sync_def)
next
  fix nowIso msg
  assume ok: "msg \<noteq> JUndefined" "msg \<noteq> JNull"
  from on_chatMessage_defined [OF ok, of analyze nowIso st]
  obtain m where m: "safeMsg analyze nowIso msg = Inr m"
    "on_chatMessage analyze nowIso msg st =
        Inr (io_emit (ChatMessageEv m) (st\<lparr>chatHistory := chatHistory st @ [m]\<rparr>))"
    by blast
  show "\<exists>m st'. on_chatMessage analyze nowIso msg st = Inr st'
             \<and> safeMsg analyze nowIso msg = Inr m
             \<and> chatHistory st' = chatHistory st @ [m]
             \<and> sockets st' = sockets st
             \<and> (\<forall>c. inbox st' c =
                   (if c \<in> sockets st then inbox st c @ [ChatMessageEv m] else inbox st c))"
    by (rule exI [of _ m],
        rule exI [of _ "io_emit (ChatMessageEv m) (st\<lparr>chatHistory := chatHistory st @ [m]\<rparr>)"])
      (simp add: m)
qed

text \<open>
  Two clients: the first connects and sends a message, the second connects and sends
  one. Both then hold the two messages.
\<close>

theorem broadcast_in_append_order_witness:
  "\<exists>st. run demo_analyze
          [Connect 1,
           ChatMessage 1 (str ''2024-01-01T00:00:00.000Z'') (JObj [(str ''text'', JStr (str ''hi''))]),
           Connect 2,
           ChatMessage 2 (str ''2024-01-01T00:00:01.000Z'') (JObj [(str ''sender'', JStr (str ''B''))])]
          (init Map.empty) = Inr st
      \<and> sockets st = {1, 2}
      \<and> length (chatHistory st) = 2
      \<and> client_log (inbox st 1) = Some (chatHistory st)
      \<and> client_log (inbox st 2) = Some (chatHistory st)"
proof -
  let ?evs = "[Connect 1,
           ChatMessage 1 (str ''2024-01-01T00:00:00.000Z'') (JObj [(str ''text'', JStr (str ''hi''))]),
           Connect 2,
           ChatMessage 2 (str ''2024-01-01T00:00:01.000Z'') (JObj [(str ''sender'', JStr (str ''B''))])]"
  have "\<exists>st. run demo_analyze ?evs (init Map.empty) = Inr st
      \<and> sockets st = {1, 2} \<and> length (chatHistory st) = 2"
    by (simp add: on_chatMessage_def safeMsg_def on_connection_def socket_emit_def init_def
        Let_def insert_commute)
  then obtain st where st: "run demo_analyze ?evs (init Map.empty) = Inr st"
    "sockets st = {1, 2}" "length (chatHistory st) = 2"
    by blast
  from broadcast_in_append_order [OF st(1)]
  have "\<forall>c\<in>sockets st. client_log (inbox st c) = Some (chatHistory st)"
    by blast
  with st show ?thesis
    by auto
qed

text \<open>
  Claim C3: the record that is stored and broadcast carries as its sentiment the
  analyzer's score of its text, the text being the payload's or the empty string, and
  0 when the analyzer throws; whatever the analyzer does, the record is pushed on the
  chat log and emitted to every connected socket. The payload is one whose fields can
  be read, that is, neither null nor undefined.
\<close>

theorem sentiment_score_or_zero:
  assumes "msg \<noteq> JUndefined" and "msg \<noteq> JNull"
  shows "\<exists>m st'. on_chatMessage analyze nowIso msg st = Inr st'
      \<and> chatHistory st' = chatHistory st @ [m]
      \<and> (\<forall>c. inbox st' c = (if c \<in> sockets st then inbox st c @ [ChatMessageEv m] else inbox st c))
      \<and> msg_text m = js_or (field_of msg (str ''text'')) (JStr (str ''''))
      \<and> sentiment m = (case analyze (msg_text m) of Some score \<Rightarrow> score | None \<Rightarrow> 0)"
proof -
  from on_chatMessage_defined [OF assms, of analyze nowIso st]
  obtain m where m: "on_chatMessage analyze nowIso msg st =
        Inr (io_emit (ChatMessageEv m) (st\<lparr>chatHistory := chatHistory st @ [m]\<rparr>))"
    "msg_text m = js_or (field_of msg (str ''text'')) (JStr (str ''''))"
    "sentiment m = (case analyze (msg_text m) of Some score \<Rightarrow> score | None \<Rightarrow> 0)"
    by blast
  show ?thesis
    by (rule exI [of _ m],
        rule exI [of _ "io_emit (ChatMessageEv m) (st\<lparr>chatHistory := chatHistory st @ [m]\<rparr>)"])
      (simp add: m)
qed

text \<open>The text is the number 5: the analyzer throws, the record is stored with 0.\<close>

theorem sentiment_score_or_zero_witness:
  "JObj [(str ''text'', JNum 5)] \<noteq> JUndefined \<and> JObj [(str ''text'', JNum 5)] \<noteq> JNull
   \<and> (\<exists>m st'. on_chatMessage demo_analyze (str ''2024-01-01T00:00:00.000Z'')
                  (JObj [(str ''text'', JNum 5)]) (init Map.empty) = Inr st'
         \<and> chatHistory st' = [m] \<and> msg_text m = JNum 5 \<and> sentiment m = 0)"
  using sentiment_score_or_zero [of "JObj [(str ''text'', JNum 5)]" demo_analyze
      "str ''2024-01-01T00:00:00.000Z''" "init Map.empty"]
  by (auto simp: field_of_def js_or_def demo_analyze_def init_def)

text \<open>
  Claim C5, as stated: a field the payload has is kept. It is not when its value is
  falsy: a payload with the sender \<open>""\<close> and the fileUrl \<open>0\<close> is stored with the sender
  "Anonymous" and the fileUrl null.
\<close>

theorem present_falsy_not_preserved:
  "safeMsg demo_analyze (str ''2024-01-01T00:00:00.000Z'')
     (JObj [(str ''sender'', JStr (str '''')), (str ''fileUrl'', JNum 0)])
   = Inr \<lparr>sender = JStr (str ''Anonymous''), msg_text = JStr (str ''''), fileUrl = JNull,
          timestamp = JStr (str ''2024-01-01T00:00:00.000Z''), sentiment = 0\<rparr>
   \<and> JStr (str ''Anonymous'') \<noteq> JStr (str '''') \<and> JNull \<noteq> JNum 0"
  by (simp add: safeMsg_def js_or_def demo_analyze_def)

text \<open>
  Claim C5, amended: for a payload that is neither null nor undefined, the stored
  record carries the default of each field the payload omits (sender "Anonymous", text
  \<open>""\<close>, fileUrl null, timestamp the server's current time), and the payload's value
  of each field whose value is truthy.
\<close>

theorem defaults_when_omitted_kept_when_truthy:
  assumes "msg \<noteq> JUndefined" and "msg \<noteq> JNull"
  shows "\<exists>m st'. on_chatMessage analyze nowIso msg st = Inr st'
      \<and> chatHistory st' = chatHistory st @ [m]
      \<and> (field_of msg (str ''sender'') = JUndefined \<longrightarrow> sender m = JStr (str ''Anonymous''))
      \<and> (field_of msg (str ''text'') = JUndefined \<longrightarrow> msg_text m = JStr (str ''''))
      \<and> (field_of msg (str ''fileUrl'') = JUndefined \<longrightarrow> fileUrl m = JNull)
      \<and> (field_of msg (str ''timestamp'') = JUndefined \<longrightarrow> timestamp m = JStr nowIso)
      \<and> (truthy (field_of msg (str ''sender'')) \<longrightarrow> sender m = field_of msg (str ''sender''))
      \<and> (truthy (field_of msg (str ''text'')) \<longrightarrow> msg_text m = field_of msg (str ''text''))
      \<and> (truthy (field_of msg (str ''fileUrl'')) \<longrightarrow> fileUrl m = field_of msg (str ''fileUrl''))
      \<and> (truthy (field_of msg (str ''timestamp'')) \<longrightarrow>
            timestamp m = field_of msg (str ''timestamp''))"
proof -
  from on_chatMessage_defined [OF assms, of analyze nowIso st]
  obtain m where m: "on_chatMessage analyze nowIso msg st =
        Inr (io_emit (ChatMessageEv m) (st\<lparr>chatHistory := chatHistory st @ [m]\<rparr>))"
    "sender m = js_or (field_of msg (str ''sender'')) (JStr (str ''Anonymous''))"
    "msg_text m = js_or (field_of msg (str ''text'')) (JStr (str ''''))"
    "fileUrl m = js_or (field_of msg (str ''fileUrl'')) JNull"
    "timestamp m = js_or (field_of msg (str ''timestamp'')) (JStr nowIso)"
    by blast
  show ?thesis
    by (rule exI [of _ m],
        rule exI [of _ "io_emit (ChatMessageEv m) (st\<lparr>chatHistory := chatHistory st @ [m]\<rparr>)"])
      (simp add: m js_or_def)
qed

text \<open>The first scenario of the specification: sender and text given, the rest omitted.\<close>

theorem defaults_when_omitted_kept_when_truthy_witness:
  "JObj [(str ''sender'', JStr (str ''Alice'')), (str ''text'', JStr (str ''I love this!''))] \<noteq> JUndefined
   \<and> JObj [(str ''sender'', JStr (str ''Alice'')), (str ''text'', JStr (str ''I love this!''))] \<noteq> JNull
   \<and> (\<exists>m st'. on_chatMessage demo_analyze (str ''2024-01-01T00:00:00.000Z'')
           (JObj [(str ''sender'', JStr (str ''Alice'')), (str ''text'', JStr (str ''I love this!''))])
           (init Map.empty) = Inr st'
         \<and> chatHistory st' = [m]
         \<and> sender m = JStr (str ''Alice'') \<and> msg_text m = JStr (str ''I love this!'')
         \<and> fileUrl m = JNull \<and> timestamp m = JStr (str ''2024-01-01T00:00:00.000Z''))"
  using defaults_when_omitted_kept_when_truthy
    [of "JObj [(str ''sender'', JStr (str ''Alice'')), (str ''text'', JStr (str ''I love this!''))]"
      demo_analyze "str ''2024-01-01T00:00:00.000Z''" "init Map.empty"]
  by (auto simp: field_of_def init_def)

text \<open>
  Claim C6: the handler fails on no payload. It does on null and on undefined (an event
  emitted with no argument): the read of \<open>msg.sender\<close> throws a TypeError, nothing
  is stored and nothing is emitted. On every other payload the handler runs to its end
  (\<open>on_chatMessage_defined\<close>), and these two are the only payloads it throws on
  (\<open>safeMsg_throws_iff\<close>).
\<close>

theorem null_payload_throws:
  "on_chatMessage analyze nowIso JNull st = Inl TypeError
   \<and> on_chatMessage analyze nowIso JUndefined st = Inl TypeError"
  by (simp add: on_chatMessage_def safeMsg_def)

text \<open>
  Claim C10: the defaults go by falsiness. When the payload is an object that has the
  field with a falsy value (\<open>""\<close>, 0, false, null), the stored record carries the
  default of that field: sender "Anonymous", text \<open>""\<close>, fileUrl null, timestamp the
  server's current time.
\<close>

theorem falsy_fields_get_defaults:
  assumes "map_of ps k = Some v" and "\<not> truthy v"
  shows "\<exists>m st'. on_chatMessage analyze nowIso (JObj ps) st = Inr st'
      \<and> chatHistory st' = chatHistory st @ [m]
      \<and> (k = str ''sender'' \<longrightarrow> sender m = JStr (str ''Anonymous''))
      \<and> (k = str ''text'' \<longrightarrow> msg_text m = JStr (str ''''))
      \<and> (k = str ''fileUrl'' \<longrightarrow> fileUrl m = JNull)
      \<and> (k = str ''timestamp'' \<longrightarrow> timestamp m = JStr nowIso)"
proof -
  have ok: "JObj ps \<noteq> JUndefined" "JObj ps \<noteq> JNull"
    by simp_all
  from on_chatMessage_defined [OF ok, of analyze nowIso st]
  obtain m where m: "on_chatMessage analyze nowIso (JObj ps) st =
        Inr (io_emit (ChatMessageEv m) (st\<lparr>chatHistory := chatHistory st @ [m]\<rparr>))"
    "sender m = js_or (field_of (JObj ps) (str ''sender'')) (JStr (str ''Anonymous''))"
    "msg_text m = js_or (field_of (JObj ps) (str ''text'')) (JStr (str ''''))"
    "fileUrl m = js_or (field_of (JObj ps) (str ''fileUrl'')) JNull"
    "timestamp m = js_or (field_of (JObj ps) (str ''timestamp'')) (JStr nowIso)"
    by blast
  have "field_of (JObj ps) k = v"
    by (simp add: field_of_def assms(1))
  then have "\<not> truthy (field_of (JObj ps) k)"
    using assms(2) by simp
  then show ?thesis
    by (intro exI [of _ m]
        exI [of _ "io_emit (ChatMessageEv m) (st\<lparr>chatHistory := chatHistory st @ [m]\<rparr>)"])
      (auto simp: m js_or_def)
qed

text \<open>The sender is the empty string and the fileUrl is false.\<close>

theorem falsy_fields_get_defaults_witness:
  "map_of [(str ''sender'', JStr (str '''')), (str ''fileUrl'', JBool False)] (str ''fileUrl'')
     = Some (JBool False)
   \<and> map_of [(str ''sender'', JStr (str '''')), (str ''fileUrl'', JBool False)] (str ''sender'')
     = Some (JStr (str ''''))
   \<and> \<not> truthy (JBool False) \<and> \<not> truthy (JStr (str ''''))
   \<and> (\<exists>m st'. on_chatMessage demo_analyze (str ''2024-01-01T00:00:00.000Z'')
           (JObj [(str ''sender'', JStr (str '''')), (str ''fileUrl'', JBool False)])
           (init Map.empty) = Inr st'
         \<and> chatHistory st' = [m] \<and> fileUrl m = JNull \<and> sender m = JStr (str ''Anonymous''))"
  using falsy_fields_get_defaults
    [of "[(str ''sender'', JStr (str '''')), (str ''fileUrl'', JBool False)]" "str ''fileUrl''"
      "JBool False" demo_analyze "str ''2024-01-01T00:00:00.000Z''" "init Map.empty"]
    falsy_fields_get_defaults
    [of "[(str ''sender'', JStr (str '''')), (str ''fileUrl'', JBool False)]" "str ''sender''"
      "JStr (str '''')" demo_analyze "str ''2024-01-01T00:00:00.000Z''" "init Map.empty"]
  by (auto simp: init_def)

section \<open>The claim on the login\<close>

lemma login_handler_defined:
  assumes "req_body \<noteq> JUndefined" "req_body \<noteq> JNull"
  shows "login_handler table req_body =
     Inr (if \<not> truthy (field_of req_body (str ''email''))
             \<or> \<not> truthy (field_of req_body (str ''password''))
          then res_json 200 (JObj [(str ''success'', JBool False),
                                   (str ''message'', JStr (str ''Email and password required''))])
          else if \<exists>u\<in>set table. field_of req_body (str ''email'') = JStr (email u)
                    \<and> field_of req_body (str ''password'') = JStr (password u)
          then res_json 200 (JObj [(str ''success'', JBool True)])
          else res_json 200 (JObj [(str ''success'', JBool False),
                                   (str ''message'', JStr (str ''Invalid email or password''))]))"
proof -
  let ?P = "\<lambda>u. strict_eq (email u) (field_of req_body (str ''email''))
              \<and> strict_eq (password u) (field_of req_body (str ''password''))"
  have "(find ?P table = None) =
      (\<not> (\<exists>u\<in>set table. field_of req_body (str ''email'') = JStr (email u)
                    \<and> field_of req_body (str ''password'') = JStr (password u)))"
    by (auto simp: find_None_iff strict_eq_def)
  then show ?thesis
    by (cases "find ?P table")
      (auto simp: login_handler_def get_field_defined [OF assms])
qed

text \<open>
  Claim C4, as stated: the required-fields answer is for an absent field, and a body
  that has both fields is looked up in the table. A body with the password 0 has both
  fields: the code answers that email and password are required, where the claim has
  the invalid-credentials answer.
\<close>

theorem falsy_password_counts_as_missing:
  "post_login users (JObj [(str ''email'', JStr (str ''user@example.com'')), (str ''password'', JNum 0)])
     = res_json 200 (JObj [(str ''success'', JBool False),
                           (str ''message'', JStr (str ''Email and password required''))])
   \<and> login_as_claimed users
       (JObj [(str ''email'', JStr (str ''user@example.com'')), (str ''password'', JNum 0)])
     = res_json 200 (JObj [(str ''success'', JBool False),
                           (str ''message'', JStr (str ''Invalid email or password''))])"
  by (simp add: post_login_def login_handler_def login_as_claimed_def field_of_def users_def)

text \<open>
  Claim C4, amended: for a login request whose body is an object (any value but null
  and undefined), if the email or the password is falsy, that is absent, null, \<open>""\<close>, 0
  or false, the answer is success false with the required-fields message, whatever the
  credential table holds; otherwise the answer is success true exactly when the table
  has a user with this very email and password, and success false with the
  invalid-credentials message when it has none; the status is 200 in each case.
\<close>

theorem login_by_truthiness:
  assumes "req_body \<noteq> JUndefined" and "req_body \<noteq> JNull"
  shows "(\<not> truthy (field_of req_body (str ''email''))
            \<or> \<not> truthy (field_of req_body (str ''password'')) \<longrightarrow>
          (\<forall>table. post_login table req_body =
             res_json 200 (JObj [(str ''success'', JBool False),
                                 (str ''message'', JStr (str ''Email and password required''))])))
     \<and> (truthy (field_of req_body (str ''email''))
            \<and> truthy (field_of req_body (str ''password'')) \<longrightarrow>
          post_login table req_body =
            (if \<exists>u\<in>set table. field_of req_body (str ''email'') = JStr (email u)
                   \<and> field_of req_body (str ''password'') = JStr (password u)
             then res_json 200 (JObj [(str ''success'', JBool True)])
             else res_json 200 (JObj [(str ''success'', JBool False),
                                      (str ''message'', JStr (str ''Invalid email or password''))])))
     \<and> status (post_login table req_body) = 200"
  by (simp add: post_login_def login_handler_defined [OF assms] res_json_def)

text \<open>The demo account logs in; an empty email is answered as a missing one.\<close>

theorem login_by_truthiness_witness:
  "JObj [(str ''email'', JStr (str ''user@example.com'')),
         (str ''password'', JStr (str ''mypassword''))] \<noteq> JUndefined
   \<and> JObj [(str ''email'', JStr (str ''user@example.com'')),
           (str ''password'', JStr (str ''mypassword''))] \<noteq> JNull
   \<and> post_login users (JObj [(str ''email'', JStr (str ''user@example.com'')),
                             (str ''password'', JStr (str ''mypassword''))])
       = res_json 200 (JObj [(str ''success'', JBool True)])
   \<and> post_login users (JObj [(str ''email'', JStr (str '''')),
                             (str ''password'', JStr (str ''mypassword''))])
       = res_json 200 (JObj [(str ''success'', JBool False),
                             (str ''message'', JStr (str ''Email and password required''))])"
  using login_by_truthiness
      [of "JObj [(str ''email'', JStr (str ''user@example.com'')),
                 (str ''password'', JStr (str ''mypassword''))]" users]
    login_by_truthiness
      [of "JObj [(str ''email'', JStr (str '''')),
                 (str ''password'', JStr (str ''mypassword''))]" users]
  by (simp add: field_of_def users_def)

section \<open>The claims on the upload\<close>

subsection \<open>The generated name\<close>

lemma num_to_str_digit: "c \<in> set (num_to_str n) \<Longrightarrow> 48 \<le> c \<and> c \<le> 57"
proof (induction n rule: num_to_str.induct)
  case (1 n)
  show ?case
  proof (cases "n < 10")
    case True
    with "1.prems" show ?thesis
      by (simp add: num_to_str.simps [of n])
  next
    case False
    with "1.prems" have "c \<in> set (num_to_str (n div 10)) \<or> c = 48 + n mod 10"
      by (auto simp: num_to_str.simps [of n])
    then show ?thesis
    proof
      assume "c \<in> set (num_to_str (n div 10))"
      with False show ?thesis by (rule "1.IH")
    next
      assume "c = 48 + n mod 10"
      then show ?thesis by simp
    qed
  qed
qed

lemma str_to_num_snoc: "str_to_num (ds @ [d]) = 10 * str_to_num ds + (d - 48)"
  by (simp add: str_to_num_def)

lemma str_to_num_num_to_str: "str_to_num (num_to_str n) = n"
proof (induction n rule: num_to_str.induct)
  case (1 n)
  show ?case
  proof (cases "n < 10")
    case True
    then show ?thesis
      by (simp add: num_to_str.simps [of n] str_to_num_def)
  next
    case False
    then have "str_to_num (num_to_str (n div 10)) = n div 10"
      by (rule "1.IH")
    with False show ?thesis
      by (simp add: num_to_str.simps [of n] str_to_num_snoc)
  qed
qed

lemma num_to_str_inj: "num_to_str m = num_to_str n \<Longrightarrow> m = n"
  by (metis str_to_num_num_to_str)

lemma str_dash: "str ''-'' = [45]"
  by (simp add: str_def)

text \<open>The name up to its first hyphen is the time.\<close>

lemma safeName_prefix: "takeWhile (\<lambda>c. c \<noteq> 45) (safeName now part) = num_to_str now"
proof -
  have "\<And>c. c \<in> set (num_to_str now) \<Longrightarrow> c \<noteq> 45"
    using num_to_str_digit [of _ now] by fastforce
  then show ?thesis
    by (simp add: safeName_def str_dash)
qed

lemma safeName_eq_iff:
  "safeName now part = safeName now' part' \<longleftrightarrow>
     now = now' \<and> replace_ws (originalname part) = replace_ws (originalname part')"
proof
  assume eq: "safeName now part = safeName now' part'"
  then have "num_to_str now = num_to_str now'"
    using safeName_prefix [of now part] safeName_prefix [of now' part'] by simp
  then have "now = now'"
    by (rule num_to_str_inj)
  with eq show "now = now' \<and> replace_ws (originalname part) = replace_ws (originalname part')"
    by (simp add: safeName_def)
next
  assume "now = now' \<and> replace_ws (originalname part) = replace_ws (originalname part')"
  then show "safeName now part = safeName now' part'"
    by (simp add: safeName_def)
qed

lemma underscore_not_space: "\<not> is_space 95"
  by (simp add: is_space_def)

lemma replace_ws_no_space: "c \<in> set (replace_ws s) \<Longrightarrow> \<not> is_space c"
  by (induction s rule: replace_ws.induct) (auto simp: underscore_not_space split: if_splits)

lemma replace_ws_keep: "\<not> is_space c \<Longrightarrow> replace_ws (c # cs) = c # replace_ws cs"
  by simp

lemma dropWhile_run:
  assumes "\<forall>c\<in>set ws. is_space c" "cs = [] \<or> \<not> is_space (hd cs)"
  shows "dropWhile is_space (ws @ cs) = cs"
proof -
  have "dropWhile is_space cs = cs"
    using assms(2) by (cases cs) auto
  with assms(1) show ?thesis
    by simp
qed

lemma replace_ws_run:
  assumes "ws \<noteq> []" "\<forall>c\<in>set ws. is_space c" "cs = [] \<or> \<not> is_space (hd cs)"
  shows "replace_ws (ws @ cs) = str ''_'' @ replace_ws cs"
proof -
  from assms(1) obtain w ws' where ws: "ws = w # ws'"
    by (cases ws) auto
  with assms(2) have "is_space w" "\<forall>c\<in>set ws'. is_space c"
    by simp_all
  then show ?thesis
    using dropWhile_run [of ws' cs] assms(3) by (simp add: ws str_def)
qed

subsection \<open>The handler\<close>

text \<open>The \<open>catch\<close> of the handler is never entered: the handler answers 200 or 400.\<close>

lemma upload_try_Inr: "upload_try req_file \<noteq> Inl err"
  by (cases req_file) (simp_all add: upload_try_def)

lemma upload_handler_status: "status (upload_handler req_file) \<in> {200, 400}"
  by (cases req_file) (simp_all add: upload_handler_def upload_try_def res_json_def)

text \<open>
  Claim C7: an upload request with no file part is answered with status 400 and the
  body \<open>{error: "No file uploaded"}\<close>, and leaves the server as it was: the chat log
  and the stored files are unchanged.
\<close>

theorem upload_without_file:
  "fst (post_upload now write_error None st) =
     res_json 400 (JObj [(str ''error'', JStr (str ''No file uploaded''))])
   \<and> status (fst (post_upload now write_error None st)) = 400
   \<and> snd (post_upload now write_error None st) = st
   \<and> chatHistory (snd (post_upload now write_error None st)) = chatHistory st
   \<and> uploads (snd (post_upload now write_error None st)) = uploads st"
  by (simp add: post_upload_def upload_single_def upload_handler_def upload_try_def res_json_def)

text \<open>
  Claim C8: an upload whose write fails is answered with status 500 and a generic
  \<open>{error}\<close> body. The handler has that answer in its \<open>catch\<close>, but the write is
  made by the middleware before the handler: on a failure the middleware passes the
  error to \<open>next\<close>, the handler does not run, and the answer is the page of Express's
  error handler for the write error, not the body \<open>{error: "Upload failed"}\<close>.
\<close>

theorem write_failure_skips_handler:
  "post_upload now (Some err) (Some part) st =
     (\<lparr>status = 500, body = DefaultErrorPage (WriteError err)\<rparr>, st)
   \<and> body (fst (post_upload now (Some err) (Some part) st))
       \<noteq> Json (JObj [(str ''error'', JStr (str ''Upload failed''))])"
  by (simp add: post_upload_def upload_single_def express_error_def)

text \<open>
  Claim C9, as stated: distinct uploads receive distinct names. Two uploads of files
  named photo.jpg with different contents, handled in the same millisecond, are given
  the same name and the same URL, and the second file replaces the first.
\<close>

theorem same_millisecond_same_name:
  "\<lparr>originalname = str ''photo.jpg'', content = [1]\<rparr>
     \<noteq> \<lparr>originalname = str ''photo.jpg'', content = [2]\<rparr>
   \<and> fst (post_upload 1700000000000 None
           (Some \<lparr>originalname = str ''photo.jpg'', content = [2]\<rparr>)
           (snd (post_upload 1700000000000 None
                  (Some \<lparr>originalname = str ''photo.jpg'', content = [1]\<rparr>) (init Map.empty))))
     = fst (post_upload 1700000000000 None
             (Some \<lparr>originalname = str ''photo.jpg'', content = [1]\<rparr>) (init Map.empty))
   \<and> uploads
        (snd (post_upload 1700000000000 None
           (Some \<lparr>originalname = str ''photo.jpg'', content = [2]\<rparr>)
           (snd (post_upload 1700000000000 None
                  (Some \<lparr>originalname = str ''photo.jpg'', content = [1]\<rparr>) (init Map.empty)))))
        (safeName 1700000000000 \<lparr>originalname = str ''photo.jpg'', content = [1]\<rparr>)
     = Some [2]"
  by (simp add: post_upload_def upload_single_def upload_handler_def upload_try_def
      safeName_def init_def)

text \<open>
  Claim C9, amended: a successful upload stores the file under the name made of the
  decimal millisecond time of the upload, a hyphen, and the original name in which each
  maximal run of whitespace is replaced by one underscore and every other character is
  kept, so that no whitespace is left in it; the answer is the URL of that name under
  /uploads/; and two uploads receive the same name exactly when their times are equal
  and their original names agree once the whitespace is replaced.
\<close>

theorem upload_name_and_url:
  "post_upload now None (Some part) st =
      (res_json 200 (JObj [(str ''fileUrl'', JStr (str ''/uploads/'' @ safeName now part))]),
       st\<lparr>uploads := (uploads st)(safeName now part \<mapsto> content part)\<rparr>)
   \<and> safeName now part = num_to_str now @ str ''-'' @ replace_ws (originalname part)
   \<and> (\<forall>c\<in>set (replace_ws (originalname part)). \<not> is_space c)
   \<and> (\<forall>c cs. \<not> is_space c \<longrightarrow> replace_ws (c # cs) = c # replace_ws cs)
   \<and> (\<forall>ws cs. ws \<noteq> [] \<and> (\<forall>c\<in>set ws. is_space c) \<and> (cs = [] \<or> \<not> is_space (hd cs)) \<longrightarrow>
         replace_ws (ws @ cs) = str ''_'' @ replace_ws cs)
   \<and> (\<forall>now' part'. safeName now part = safeName now' part' \<longleftrightarrow>
         now = now' \<and> replace_ws (originalname part) = replace_ws (originalname part'))"
proof (intro conjI allI impI ballI)
  show "post_upload now None (Some part) st =
      (res_json 200 (JObj [(str ''fileUrl'', JStr (str ''/uploads/'' @ safeName now part))]),
       st\<lparr>uploads := (uploads st)(safeName now part \<mapsto> content part)\<rparr>)"
    by (simp add: post_upload_def upload_single_def upload_handler_def upload_try_def)
  show "safeName now part = num_to_str now @ str ''-'' @ replace_ws (originalname part)"
    by (simp add: safeName_def)
  show "\<not> is_space c" if "c \<in> set (replace_ws (originalname part))" for c
    using that by (rule replace_ws_no_space)
  show "replace_ws (c # cs) = c # replace_ws cs" if "\<not> is_space c" for c cs
    using that by (rule replace_ws_keep)
  show "replace_ws (ws @ cs) = str ''_'' @ replace_ws cs"
    if "ws \<noteq> [] \<and> (\<forall>c\<in>set ws. is_space c) \<and> (cs = [] \<or> \<not> is_space (hd cs))" for ws cs
    using that by (simp add: replace_ws_run)
  show "(safeName now part = safeName now' part') =
         (now = now' \<and> replace_ws (originalname part) = replace_ws (originalname part'))"
    for now' part'
    by (rule safeName_eq_iff)
qed

text \<open>A name with two runs of whitespace; the same file a millisecond later.\<close>

theorem upload_name_and_url_witness:
  "fst (post_upload 1700000000000 None
          (Some \<lparr>originalname = str ''my  cat pic.png'', content = [72, 105]\<rparr>) (init Map.empty))
     = res_json 200 (JObj [(str ''fileUrl'', JStr (str ''/uploads/1700000000000-my_cat_pic.png''))])
   \<and> safeName 1700000000000 \<lparr>originalname = str ''my  cat pic.png'', content = [72, 105]\<rparr>
     \<noteq> safeName 1700000000001 \<lparr>originalname = str ''my  cat pic.png'', content = [72, 105]\<rparr>"
proof -
  let ?part = "\<lparr>originalname = str ''my  cat pic.png'', content = [72, 105]\<rparr>"
  from upload_name_and_url [of 1700000000000 ?part "init Map.empty"]
  have u: "post_upload 1700000000000 None (Some ?part) (init Map.empty) =
      (res_json 200 (JObj [(str ''fileUrl'', JStr (str ''/uploads/'' @ safeName 1700000000000 ?part))]),
       (init Map.empty)\<lparr>uploads := (uploads (init Map.empty))(safeName 1700000000000 ?part \<mapsto> content ?part)\<rparr>)"
    and n: "\<forall>now' part'. (safeName 1700000000000 ?part = safeName now' part') =
         (1700000000000 = now' \<and> replace_ws (originalname ?part) = replace_ws (originalname part'))"
    by blast+
  have s: "str ''/uploads/'' @ safeName 1700000000000 ?part
      = str ''/uploads/1700000000000-my_cat_pic.png''"
    by (simp add: safeName_def num_to_str.simps str_def is_space_def)
  from n have "safeName 1700000000000 ?part \<noteq> safeName 1700000000001 ?part"
    by simp
  then show ?thesis
    by (simp add: u s)
qed

end
